theory Spec2Isabelle
  imports Main "HOL-Library.Word" "HOL-Library.Multiset"
begin

section \<open>Data model (internal/server/game\_server.go)\<close>

text \<open>
  Go's \<^verbatim>\<open>int64\<close> is a 64-bit word; the comparison \<^verbatim>\<open>>\<close> on it is the signed
  one, \<open><s\<close> on words.
\<close>

type_synonym int64 = "64 word"

record PlayerState =
  Score :: int64
  Timestamp :: int64

text \<open>
  A Go map is a reference to a mutable table. The contents of one
  \<^verbatim>\<open>map[string]PlayerState\<close> are a finite partial function; the table itself lives in a
  store of map objects, addressed by a \<open>mapref\<close>, so that two variables may or may not
  share one table.
\<close>

type_synonym PlayerTable = "string \<rightharpoonup> PlayerState"

type_synonym mapref = nat

record GameServer =
  ID :: string
  Address :: string
  Peers :: "string list"
  PlayerMap :: mapref

text \<open>
  What a node sends to the network: \<^verbatim>\<open>http.Post(url, "application/json", payload)\<close>,
  where the payload is the marshalled player table, and the closing of a response body.
\<close>

datatype effect = HttpPost string PlayerTable | CloseBody

text \<open>
  The state of one node process: the \<^verbatim>\<open>GameServer\<close> object, the store of map objects
  with the next unused reference, and the trace of network effects so far. The mutex
  \<^verbatim>\<open>mu\<close> is not a field of the model: every method below holds it for its whole body,
  so each method is one atomic step on this state.
\<close>

record world =
  gs :: GameServer
  maps :: "mapref \<Rightarrow> PlayerTable"
  fresh :: mapref
  sent :: "effect list"

definition store :: "world \<Rightarrow> PlayerTable" where
  "store w = maps w (PlayerMap (gs w))"

text \<open>\<^verbatim>\<open>make(map[string]PlayerState)\<close>: a new, empty table at an unused reference.\<close>

definition make_map :: "world \<Rightarrow> mapref \<times> world" where
  "make_map w = (fresh w, w\<lparr>maps := (maps w)(fresh w := Map.empty), fresh := Suc (fresh w)\<rparr>)"

text \<open>
  \<^verbatim>\<open>NewGameServer(id, addr, peers)\<close> in a new process: the player table is the first
  map object made.
\<close>

definition NewGameServer :: "string \<Rightarrow> string \<Rightarrow> string list \<Rightarrow> world" where
  "NewGameServer id' addr peers =
     \<lparr>gs = \<lparr>ID = id', Address = addr, Peers = peers, PlayerMap = 0\<rparr>,
      maps = (\<lambda>_. Map.empty), fresh = Suc 0, sent = []\<rparr>"

text \<open>The player table of the server is an allocated map object.\<close>

definition wf_world :: "world \<Rightarrow> bool" where
  "wf_world w = (PlayerMap (gs w) < fresh w)"

text \<open>
  \<^verbatim>\<open>for k, v := range m\<close> visits every key of \<open>m\<close> exactly once, in an order the
  language leaves open. The order is a parameter of each loop below; \<open>range_order ks m\<close>
  says that \<open>ks\<close> is such an order.
\<close>

definition range_order :: "string list \<Rightarrow> PlayerTable \<Rightarrow> bool" where
  "range_order ks m = (distinct ks \<and> set ks = dom m)"

section \<open>MergeState\<close>

text \<open>
  The two-value lookup \<^verbatim>\<open>localState, exists := gs.PlayerMap[playerId]\<close>: the zero
  \<^verbatim>\<open>PlayerState\<close> and \<^verbatim>\<open>false\<close> when the key is missing.
\<close>

definition lookup2 :: "PlayerTable \<Rightarrow> string \<Rightarrow> PlayerState \<times> bool" where
  "lookup2 m k = (case m k of None \<Rightarrow> (\<lparr>Score = 0, Timestamp = 0\<rparr>, False) | Some v \<Rightarrow> (v, True))"

text \<open>The body of the loop of \<^verbatim>\<open>MergeState\<close>, for one entry of the incoming map.\<close>

definition MergeState_body :: "string \<Rightarrow> PlayerState \<Rightarrow> PlayerTable \<Rightarrow> PlayerTable" where
  "MergeState_body playerId incomingState pm =
     (let (localState, exists) = lookup2 pm playerId in
      if \<not> exists \<or> Timestamp localState <s Timestamp incomingState
      then pm(playerId \<mapsto> \<lparr>Score = Score incomingState, Timestamp = Timestamp incomingState\<rparr>)
      else pm)"

text \<open>
  The loop over the incoming map, in the range order \<open>ks\<close>. A key of the order that
  the map does not hold contributes no iteration.
\<close>

fun MergeState_loop :: "string list \<Rightarrow> PlayerTable \<Rightarrow> PlayerTable \<Rightarrow> PlayerTable" where
  "MergeState_loop [] incomingMap pm = pm"
| "MergeState_loop (playerId # ks) incomingMap pm =
     (case incomingMap playerId of
        None \<Rightarrow> MergeState_loop ks incomingMap pm
      | Some incomingState \<Rightarrow>
          MergeState_loop ks incomingMap (MergeState_body playerId incomingState pm))"

definition MergeState :: "string list \<Rightarrow> PlayerTable \<Rightarrow> world \<Rightarrow> world" where
  "MergeState ks incomingMap w =
     w\<lparr>maps := (maps w)(PlayerMap (gs w) :=
          MergeState_loop ks incomingMap (maps w (PlayerMap (gs w))))\<rparr>"

section \<open>UpdatePlayerScore\<close>

text \<open>
  \<open>now\<close> is the reading \<^verbatim>\<open>time.Now().UnixNano()\<close> of the wall clock at the call.
  The log line is not part of the state.
\<close>

definition UpdatePlayerScore :: "int64 \<Rightarrow> string \<Rightarrow> int64 \<Rightarrow> world \<Rightarrow> world" where
  "UpdatePlayerScore now playerId score w =
     w\<lparr>maps := (maps w)(PlayerMap (gs w) :=
          (maps w (PlayerMap (gs w)))(playerId \<mapsto> \<lparr>Score = score, Timestamp = now\<rparr>))\<rparr>"

section \<open>GetPlayerState\<close>

text \<open>
  The copy loop \<^verbatim>\<open>result[playerId] = state\<close> reads the table at \<open>src\<close> and writes the
  table at \<open>result\<close>, both in the store of map objects.
\<close>

fun GetPlayerState_loop ::
  "string list \<Rightarrow> mapref \<Rightarrow> mapref \<Rightarrow> (mapref \<Rightarrow> PlayerTable) \<Rightarrow> (mapref \<Rightarrow> PlayerTable)" where
  "GetPlayerState_loop [] src result hp = hp"
| "GetPlayerState_loop (playerId # ks) src result hp =
     (case hp src playerId of
        None \<Rightarrow> GetPlayerState_loop ks src result hp
      | Some state \<Rightarrow>
          GetPlayerState_loop ks src result (hp(result := (hp result)(playerId \<mapsto> state))))"

definition GetPlayerState :: "string list \<Rightarrow> world \<Rightarrow> mapref \<times> world" where
  "GetPlayerState ks w =
     (let (result, w1) = make_map w in
      (result, w1\<lparr>maps := GetPlayerState_loop ks (PlayerMap (gs w1)) result (maps w1)\<rparr>))"

section \<open>The gossip loop\<close>

text \<open>
  \<^verbatim>\<open>gossipWithPeer\<close>: the payload is the marshalled player table (marshalling a map of
  strings to pairs of integers does not fail), posted to the peer's gossip URL.
  \<open>delivered\<close> is the outcome of \<^verbatim>\<open>http.Post\<close>: on an error the method returns at
  once, otherwise it closes the response body on return.
\<close>

definition gossipWithPeer :: "string \<Rightarrow> bool \<Rightarrow> world \<Rightarrow> world" where
  "gossipWithPeer peerAddr delivered w =
     (let payload = maps w (PlayerMap (gs w));
          url = ''http://'' @ peerAddr @ ''/gossip'';
          w1 = w\<lparr>sent := sent w @ [HttpPost url payload]\<rparr>
      in if \<not> delivered then w1 else w1\<lparr>sent := sent w1 @ [CloseBody]\<rparr>)"

text \<open>\<^verbatim>\<open>rand.Intn(n)\<close> for \<open>0 < n\<close>: the draw \<open>r\<close> of the random source, reduced to \<open>[0, n)\<close>.\<close>

definition Intn :: "nat \<Rightarrow> nat \<Rightarrow> nat" where
  "Intn r n = r mod n"

text \<open>One iteration of \<^verbatim>\<open>for range ticker.C\<close> in \<^verbatim>\<open>gossipLoop\<close>.\<close>

definition gossipLoop_tick :: "nat \<Rightarrow> bool \<Rightarrow> world \<Rightarrow> world" where
  "gossipLoop_tick r delivered w =
     (if length (Peers (gs w)) = 0 then w
      else let peerAddr = Peers (gs w) ! Intn r (length (Peers (gs w)))
           in gossipWithPeer peerAddr delivered w)"

text \<open>
  The steps a node takes after startup, each atomic: a tick of the gossip loop, a local
  write, a merge of a received payload, a snapshot.
\<close>

datatype step =
    Tick nat bool
  | Set int64 string int64
  | Merge "string list" PlayerTable
  | Snapshot "string list"

fun do_step :: "step \<Rightarrow> world \<Rightarrow> world" where
  "do_step (Tick r delivered) w = gossipLoop_tick r delivered w"
| "do_step (Set now playerId score) w = UpdatePlayerScore now playerId score w"
| "do_step (Merge ks incomingMap) w = MergeState ks incomingMap w"
| "do_step (Snapshot ks) w = snd (GetPlayerState ks w)"

definition run :: "step list \<Rightarrow> world \<Rightarrow> world" where
  "run steps w = fold do_step steps w"

section \<open>The update handler of the transport\<close>

text \<open>
  \<^verbatim>\<open>r.URL.Query()\<close> is a \<^verbatim>\<open>url.Values\<close>, a map from a key to the list of its
  values; \<^verbatim>\<open>Get\<close> returns the first value of the key, or the empty string.
\<close>

type_synonym Values = "string \<rightharpoonup> string list"

definition Values_Get :: "Values \<Rightarrow> string \<Rightarrow> string" where
  "Values_Get v key =
     (case v key of None \<Rightarrow> '''' | Some vs \<Rightarrow> (case vs of [] \<Rightarrow> '''' | x # _ \<Rightarrow> x))"

record Request =
  Query :: Values

record Response =
  status :: nat
  body :: string

definition StatusOK :: nat where
  "StatusOK = 200"

definition StatusBadRequest :: nat where
  "StatusBadRequest = 400"

text \<open>\<^verbatim>\<open>http.Error(w, msg, code)\<close> replies with the code and the message on a line.\<close>

definition http_Error :: "string \<Rightarrow> nat \<Rightarrow> Response" where
  "http_Error msg code = \<lparr>status = code, body = msg @ [CHR 0x0A]\<rparr>"

text \<open>
  \<^verbatim>\<open>fmt.Sscanf(scoreStr, "%d", &score)\<close> of Go's standard library, on a 64-bit
  platform. The scanner skips leading white space and fails at a newline there; it
  fails at the end of the input; it takes one optional sign, then needs a decimal digit and
  takes all the digits that follow; the token must be in the range of \<^verbatim>\<open>int64\<close>. It
  does not look at the input after the token.

  \<open>space_width s\<close> is the number of bytes of the white-space rune at the start of
  \<open>s\<close> (the UTF-8 encodings of U+0009..U+000D, U+0020, U+0085, U+00A0, U+1680,
  U+2000..U+200A, U+2028, U+2029, U+202F, U+205F, U+3000), and 0 when there is none.
\<close>

datatype scan_error = UnexpectedNewline | UnexpectedEOF | ExpectedInteger | ValueOutOfRange

definition space_width :: "string \<Rightarrow> nat" where
  "space_width s =
     (case map of_char s :: nat list of
        [] \<Rightarrow> 0
      | b0 # r1 \<Rightarrow>
          if (0x09 \<le> b0 \<and> b0 \<le> 0x0D) \<or> b0 = 0x20 then 1
          else (case r1 of
              [] \<Rightarrow> 0
            | b1 # r2 \<Rightarrow>
                if b0 = 0xC2 \<and> (b1 = 0x85 \<or> b1 = 0xA0) then 2
                else (case r2 of
                    [] \<Rightarrow> 0
                  | b2 # _ \<Rightarrow>
                      if (b0 = 0xE1 \<and> b1 = 0x9A \<and> b2 = 0x80)
                         \<or> (b0 = 0xE2 \<and> b1 = 0x80
                              \<and> ((0x80 \<le> b2 \<and> b2 \<le> 0x8A) \<or> b2 = 0xA8 \<or> b2 = 0xA9 \<or> b2 = 0xAF))
                         \<or> (b0 = 0xE2 \<and> b1 = 0x81 \<and> b2 = 0x9F)
                         \<or> (b0 = 0xE3 \<and> b1 = 0x80 \<and> b2 = 0x80)
                      then 3 else 0)))"

text \<open>
  \<^verbatim>\<open>SkipSpace\<close> with newlines not counted as space: the loop stops with an error at
  a newline, and otherwise at the first rune that is not white space.
\<close>

function SkipSpace :: "string \<Rightarrow> scan_error + string" where
  "SkipSpace s =
     (if s \<noteq> [] \<and> hd s = CHR 0x0A then Inl UnexpectedNewline
      else if space_width s = 0 then Inr s
      else SkipSpace (drop (space_width s) s))"
  by pat_completeness auto
termination
proof (relation "measure length")
  show "wf (measure length)" by simp
next
  fix s :: string
  assume "space_width s \<noteq> 0"
  then have "s \<noteq> []" by (auto simp: space_width_def)
  with \<open>space_width s \<noteq> 0\<close> show "(drop (space_width s) s, s) \<in> measure length"
    by simp
qed

declare SkipSpace.simps [simp del]

definition is_digit :: "char \<Rightarrow> bool" where
  "is_digit c = (48 \<le> (of_char c :: nat) \<and> (of_char c :: nat) \<le> 57)"

definition digit_val :: "char \<Rightarrow> int" where
  "digit_val c = int (of_char c) - 48"

definition decimal :: "string \<Rightarrow> int" where
  "decimal ds = foldl (\<lambda>a c. 10 * a + digit_val c) 0 ds"

definition Sscanf_d :: "string \<Rightarrow> scan_error + int64" where
  "Sscanf_d str =
     (case SkipSpace str of
        Inl e \<Rightarrow> Inl e
      | Inr s \<Rightarrow>
          if s = [] then Inl UnexpectedEOF
          else let neg = (hd s = CHR ''-'');
                   s1 = (if hd s = CHR ''+'' \<or> hd s = CHR ''-'' then tl s else s)
               in if s1 = [] then Inl UnexpectedEOF
                  else let tok = takeWhile is_digit s1
                       in if tok = [] then Inl ExpectedInteger
                          else let i = (if neg then - decimal tok else decimal tok)
                               in if i < - (2 ^ 63) \<or> 2 ^ 63 - 1 < i then Inl ValueOutOfRange
                                  else Inr (word_of_int i))"

text \<open>
  \<^verbatim>\<open>HandleUpdate\<close>: the reply and the state after the request. \<open>now\<close> is the
  reading of the wall clock if the core is called.
\<close>

definition HandleUpdate :: "int64 \<Rightarrow> Request \<Rightarrow> world \<Rightarrow> Response \<times> world" where
  "HandleUpdate now r w =
     (let playerId = Values_Get (Query r) ''playerId'';
          scoreStr = Values_Get (Query r) ''score''
      in if playerId = '''' \<or> scoreStr = ''''
         then (http_Error ''missing playerId or score'' StatusBadRequest, w)
         else (case Sscanf_d scoreStr of
                 Inl err \<Rightarrow> (http_Error ''invalid playerId or score'' StatusBadRequest, w)
               | Inr score \<Rightarrow>
                   (\<lparr>status = StatusOK, body = ''''\<rparr>, UpdatePlayerScore now playerId score w)))"

section \<open>Notions used by the statements\<close>

text \<open>The per-id rule of the merge: what one incoming entry does to one local entry.\<close>

definition lww :: "PlayerState option \<Rightarrow> PlayerState option \<Rightarrow> PlayerState option" where
  "lww local incoming =
     (case incoming of
        None \<Rightarrow> local
      | Some i \<Rightarrow>
          (case local of
             None \<Rightarrow> Some i
           | Some l \<Rightarrow> if Timestamp l <s Timestamp i then Some i else Some l))"

text \<open>The state after a merge as the per-id rule gives it, without the loop.\<close>

definition merge_lww :: "PlayerTable \<Rightarrow> world \<Rightarrow> world" where
  "merge_lww incomingMap w =
     w\<lparr>maps := (maps w)(PlayerMap (gs w) := (\<lambda>p. lww (store w p) (incomingMap p)))\<rparr>"

text \<open>
  The entries a node has observed for a player id: the ones its local writes stored and
  the ones the merged payloads carried, in the order of the steps.
\<close>

fun observed1 :: "step \<Rightarrow> string \<Rightarrow> PlayerState list" where
  "observed1 (Tick r delivered) p = []"
| "observed1 (Set now playerId score) p =
     (if playerId = p then [\<lparr>Score = score, Timestamp = now\<rparr>] else [])"
| "observed1 (Merge ks incomingMap) p =
     (case incomingMap p of None \<Rightarrow> [] | Some i \<Rightarrow> [i])"
| "observed1 (Snapshot ks) p = []"

definition observed :: "step list \<Rightarrow> string \<Rightarrow> PlayerState list" where
  "observed steps p = concat (map (\<lambda>s. observed1 s p) steps)"

text \<open>
  The stored entry is an observed one with the greatest timestamp; nothing is stored only
  when nothing was observed.
\<close>

definition holds_latest :: "PlayerState option \<Rightarrow> PlayerState list \<Rightarrow> bool" where
  "holds_latest stored obs =
     (case stored of
        None \<Rightarrow> obs = []
      | Some st \<Rightarrow> st \<in> set obs \<and> (\<forall>x \<in> set obs. \<not> Timestamp st <s Timestamp x))"

text \<open>Every merge of the steps iterates its payload in a range order of that payload.\<close>

fun merges_ranged :: "step list \<Rightarrow> bool" where
  "merges_ranged [] = True"
| "merges_ranged (Merge ks incomingMap # steps) = (range_order ks incomingMap \<and> merges_ranged steps)"
| "merges_ranged (s # steps) = merges_ranged steps"

text \<open>
  After the steps \<open>before\<close>, every local write among \<open>steps\<close> stamps a time that no
  entry observed earlier for the same id exceeds.
\<close>

fun stamps_current :: "step list \<Rightarrow> step list \<Rightarrow> bool" where
  "stamps_current before [] = True"
| "stamps_current before (Set now playerId score # steps) =
     ((\<forall>x \<in> set (observed before playerId). \<not> now <s Timestamp x)
      \<and> stamps_current (before @ [Set now playerId score]) steps)"
| "stamps_current before (s # steps) = stamps_current (before @ [s]) steps"

text \<open>Merging a list of payloads, each with its range order, one after the other.\<close>

definition merge_all :: "(string list \<times> PlayerTable) list \<Rightarrow> world \<Rightarrow> world" where
  "merge_all payloads w = fold (\<lambda>(ks, incomingMap). MergeState ks incomingMap) payloads w"

text \<open>
  Two payloads, the first with the keys \<open>ks\<close>, never carry the same timestamp with
  different scores for one id.
\<close>

definition agree_on_ties :: "string list \<Rightarrow> PlayerTable \<Rightarrow> PlayerTable \<Rightarrow> bool" where
  "agree_on_ties ks a b =
     (\<forall>p \<in> set ks.
        case a p of
          None \<Rightarrow> True
        | Some i \<Rightarrow>
            (case b p of
               None \<Rightarrow> True
             | Some j \<Rightarrow> Timestamp i = Timestamp j \<longrightarrow> Score i = Score j))"

section \<open>Properties of MergeState\<close>

lemma MergeState_body_apply:
  "MergeState_body k i pm p = (if p = k then lww (pm k) (Some i) else pm p)"
  by (cases "pm k") (simp_all add: MergeState_body_def lookup2_def lww_def)

lemma MergeState_loop_notin:
  "p \<notin> set ks \<Longrightarrow> MergeState_loop ks inc pm p = pm p"
  by (induction ks arbitrary: pm) (auto simp: MergeState_body_apply split: option.splits)

lemma MergeState_loop_apply:
  "distinct ks \<Longrightarrow>
   MergeState_loop ks inc pm p = (if p \<in> set ks then lww (pm p) (inc p) else pm p)"
proof (induction ks arbitrary: pm)
  case Nil
  show ?case by simp
next
  case (Cons k ks)
  show ?case
  proof (cases "inc k")
    case None
    with Cons show ?thesis by (auto simp: lww_def)
  next
    case (Some i)
    with Cons show ?thesis
      by (auto simp: MergeState_loop_notin MergeState_body_apply)
  qed
qed

lemma MergeState_loop_lww:
  assumes "range_order ks inc"
  shows "MergeState_loop ks inc pm = (\<lambda>p. lww (pm p) (inc p))"
proof
  fix p
  from assms have d: "distinct ks" and s: "set ks = dom inc"
    by (simp_all add: range_order_def)
  show "MergeState_loop ks inc pm p = lww (pm p) (inc p)"
  proof (cases "p \<in> set ks")
    case True
    with d show ?thesis by (simp add: MergeState_loop_apply)
  next
    case False
    with s have "inc p = None" by auto
    with d False show ?thesis by (simp add: MergeState_loop_apply lww_def)
  qed
qed

lemma store_MergeState:
  "range_order ks inc \<Longrightarrow> store (MergeState ks inc w) = (\<lambda>p. lww (store w p) (inc p))"
  by (simp add: store_def MergeState_def MergeState_loop_lww)

lemma lww_idem: "lww (lww l i) i = lww l i"
  by (auto simp: lww_def split: option.splits)

lemma lww_self: "lww l l = l"
  by (auto simp: lww_def split: option.splits)

lemma MergeState_loop_idem:
  "range_order ks inc \<Longrightarrow> range_order ks' inc \<Longrightarrow>
   MergeState_loop ks' inc (MergeState_loop ks inc pm) = MergeState_loop ks inc pm"
  by (simp add: MergeState_loop_lww lww_idem)

text \<open>
  C1: for every incoming map, iterated in any range order, and every state, after
  \<open>MergeState\<close> the entry of an id is the incoming one if and only if the incoming map
  holds the id and the id was absent locally or its local timestamp is strictly smaller
  (signed comparison); otherwise the local entry is as before, so equal or smaller
  incoming timestamps and ids that the incoming map does not hold leave it unchanged.
  No entry is removed.
\<close>

theorem MergeState_rule:
  assumes "range_order ks incomingMap"
  shows "(\<forall>playerId.
            store (MergeState ks incomingMap w) playerId =
              (case incomingMap playerId of
                 None \<Rightarrow> store w playerId
               | Some incoming \<Rightarrow>
                   if store w playerId = None
                      \<or> (\<exists>local. store w playerId = Some local \<and> Timestamp local <s Timestamp incoming)
                   then Some incoming
                   else store w playerId))
         \<and> dom (store w) \<subseteq> dom (store (MergeState ks incomingMap w))"
proof -
  have eq: "store (MergeState ks incomingMap w) = (\<lambda>p. lww (store w p) (incomingMap p))"
    using assms by (rule store_MergeState)
  have "\<And>p. lww (store w p) (incomingMap p) =
          (case incomingMap p of
                 None \<Rightarrow> store w p
               | Some incoming \<Rightarrow>
                   if store w p = None
                      \<or> (\<exists>local. store w p = Some local \<and> Timestamp local <s Timestamp incoming)
                   then Some incoming
                   else store w p)"
    by (auto simp: lww_def split: option.splits)
  moreover have "dom (store w) \<subseteq> dom (\<lambda>p. lww (store w p) (incomingMap p))"
    by (auto simp: lww_def split: option.splits)
  ultimately show ?thesis unfolding eq by simp
qed

theorem MergeState_rule_witness:
  "range_order [''alice''] [''alice'' \<mapsto> \<lparr>Score = 200, Timestamp = 7\<rparr>]
   \<and> store (MergeState [''alice''] [''alice'' \<mapsto> \<lparr>Score = 200, Timestamp = 7\<rparr>]
        (UpdatePlayerScore 5 ''alice'' 100 (NewGameServer ''node1'' ''localhost:8081'' [])))
        ''alice'' = Some \<lparr>Score = 200, Timestamp = 7\<rparr>"
proof -
  have h: "range_order [''alice''] [''alice'' \<mapsto> \<lparr>Score = 200, Timestamp = 7\<rparr>]"
    by (simp add: range_order_def)
  show ?thesis
    using h MergeState_rule [OF h, of "UpdatePlayerScore 5 ''alice'' 100 (NewGameServer ''node1'' ''localhost:8081'' [])"]
    by (simp add: store_def UpdatePlayerScore_def NewGameServer_def)
qed

text \<open>
  C3: for every id, score, clock reading and prior state, \<open>UpdatePlayerScore\<close> stores
  the score with the clock reading under the id, whatever entry the id had before (none,
  or one with any timestamp); the other entries, the server object and the network trace
  stay as they were.
\<close>

theorem UpdatePlayerScore_overwrites:
  "store (UpdatePlayerScore now playerId score w) =
     (store w)(playerId \<mapsto> \<lparr>Score = score, Timestamp = now\<rparr>)
   \<and> store (UpdatePlayerScore now playerId score w) playerId =
       Some \<lparr>Score = score, Timestamp = now\<rparr>
   \<and> gs (UpdatePlayerScore now playerId score w) = gs w
   \<and> fresh (UpdatePlayerScore now playerId score w) = fresh w
   \<and> sent (UpdatePlayerScore now playerId score w) = sent w"
  by (simp add: store_def UpdatePlayerScore_def)

theorem UpdatePlayerScore_overwrites_witness:
  "store (UpdatePlayerScore 5 ''alice'' 100
      (UpdatePlayerScore 10 ''alice'' 200 (NewGameServer ''node1'' ''localhost:8081'' [])))
     ''alice'' = Some \<lparr>Score = 100, Timestamp = 5\<rparr>"
  using UpdatePlayerScore_overwrites [of 5 "''alice''" 100
      "UpdatePlayerScore 10 ''alice'' 200 (NewGameServer ''node1'' ''localhost:8081'' [])"]
  by simp

text \<open>
  C4: merging the same payload a second time, in the same or another range order, gives
  the state that the first merge gave.
\<close>

theorem MergeState_idempotent:
  assumes "range_order ks incomingMap" and "range_order ks' incomingMap"
  shows "MergeState ks' incomingMap (MergeState ks incomingMap w) = MergeState ks incomingMap w"
  using assms by (simp add: MergeState_def MergeState_loop_idem)

theorem MergeState_idempotent_witness:
  "range_order [''alice'', ''bob'']
     [''alice'' \<mapsto> \<lparr>Score = 200, Timestamp = 7\<rparr>, ''bob'' \<mapsto> \<lparr>Score = 1, Timestamp = 2\<rparr>]
   \<and> range_order [''bob'', ''alice'']
     [''alice'' \<mapsto> \<lparr>Score = 200, Timestamp = 7\<rparr>, ''bob'' \<mapsto> \<lparr>Score = 1, Timestamp = 2\<rparr>]
   \<and> MergeState [''bob'', ''alice'']
        [''alice'' \<mapsto> \<lparr>Score = 200, Timestamp = 7\<rparr>, ''bob'' \<mapsto> \<lparr>Score = 1, Timestamp = 2\<rparr>]
        (MergeState [''alice'', ''bob'']
           [''alice'' \<mapsto> \<lparr>Score = 200, Timestamp = 7\<rparr>, ''bob'' \<mapsto> \<lparr>Score = 1, Timestamp = 2\<rparr>]
           (UpdatePlayerScore 5 ''alice'' 100 (NewGameServer ''node1'' ''localhost:8081'' [])))
     = MergeState [''alice'', ''bob'']
           [''alice'' \<mapsto> \<lparr>Score = 200, Timestamp = 7\<rparr>, ''bob'' \<mapsto> \<lparr>Score = 1, Timestamp = 2\<rparr>]
           (UpdatePlayerScore 5 ''alice'' 100 (NewGameServer ''node1'' ''localhost:8081'' []))"
proof -
  let ?inc = "[''alice'' \<mapsto> \<lparr>Score = 200, Timestamp = 7\<rparr>, ''bob'' \<mapsto> \<lparr>Score = 1, Timestamp = 2\<rparr>]"
  have h1: "range_order [''alice'', ''bob''] ?inc"
    by (auto simp: range_order_def)
  have h2: "range_order [''bob'', ''alice''] ?inc"
    by (auto simp: range_order_def)
  from h1 h2 MergeState_idempotent [OF h1 h2] show ?thesis
    by blast
qed

section \<open>Snapshots\<close>

lemma GetPlayerState_loop_other:
  "x \<noteq> result \<Longrightarrow> GetPlayerState_loop ks src result hp x = hp x"
  by (induction ks arbitrary: hp) (auto split: option.splits)

lemma GetPlayerState_loop_result:
  "result \<noteq> src \<Longrightarrow>
   GetPlayerState_loop ks src result hp result p =
     (if p \<in> set ks \<and> hp src p \<noteq> None then hp src p else hp result p)"
proof (induction ks arbitrary: hp)
  case Nil
  show ?case by simp
next
  case (Cons k ks)
  show ?case
  proof (cases "hp src k")
    case None
    with Cons show ?thesis by auto
  next
    case (Some st)
    with Cons show ?thesis by auto
  qed
qed

lemma GetPlayerState_result:
  assumes "wf_world w" and "range_order ks (store w)" and "GetPlayerState ks w = (result, w1)"
  shows "result = fresh w" and "maps w1 result = store w"
    and "\<And>x. x \<noteq> fresh w \<Longrightarrow> maps w1 x = maps w x"
    and "gs w1 = gs w" and "sent w1 = sent w" and "fresh w1 = Suc (fresh w)"
proof -
  from assms(3) have r: "result = fresh w"
    and w1: "w1 = w\<lparr>maps := GetPlayerState_loop ks (PlayerMap (gs w)) (fresh w)
                            ((maps w)(fresh w := Map.empty)),
                   fresh := Suc (fresh w)\<rparr>"
    by (auto simp: GetPlayerState_def make_map_def)
  from assms(1) have ne: "fresh w \<noteq> PlayerMap (gs w)"
    by (simp add: wf_world_def)
  from assms(2) have ks: "set ks = dom (maps w (PlayerMap (gs w)))"
    by (simp add: range_order_def store_def)
  show "result = fresh w" by (rule r)
  show "maps w1 result = store w"
  proof
    fix p
    show "maps w1 result p = store w p"
      using ne ks by (auto simp: w1 r store_def GetPlayerState_loop_result)
  qed
  show "\<And>x. x \<noteq> fresh w \<Longrightarrow> maps w1 x = maps w x"
    by (simp add: w1 GetPlayerState_loop_other)
  show "gs w1 = gs w" "sent w1 = sent w" "fresh w1 = Suc (fresh w)"
    by (simp_all add: w1)
qed

lemma MergeState_loop_self:
  "range_order ks pm \<Longrightarrow> MergeState_loop ks pm pm = pm"
  by (simp add: MergeState_loop_lww lww_self)

text \<open>
  C10: merging the map that \<open>GetPlayerState\<close> returned for a state back into that
  state changes nothing: the state after the merge is the state after the snapshot, and its
  store is the store before the snapshot. Merging an empty payload changes nothing either.
\<close>

theorem MergeState_own_snapshot:
  assumes "wf_world w" and "range_order ks (store w)"
    and "GetPlayerState ks w = (result, w1)" and "range_order ks' (maps w1 result)"
  shows "MergeState ks' (maps w1 result) w1 = w1
         \<and> store (MergeState ks' (maps w1 result) w1) = store w
         \<and> MergeState [] Map.empty w = w"
proof -
  note R = GetPlayerState_result [OF assms(1-3)]
  from assms(1) have ne: "PlayerMap (gs w) \<noteq> fresh w"
    by (simp add: wf_world_def)
  have s1: "store w1 = store w"
    using ne by (simp add: store_def R(3,4))
  have m: "maps w1 result = store w1"
    by (simp add: R(2) s1)
  from assms(4) have ro: "range_order ks' (store w1)"
    by (simp add: m)
  have "MergeState ks' (store w1) w1 = w1"
    using ro by (simp add: MergeState_def store_def [symmetric] MergeState_loop_self)
       (simp add: store_def)
  then have a: "MergeState ks' (maps w1 result) w1 = w1"
    by (simp add: m)
  have "MergeState [] Map.empty w = w"
    by (simp add: MergeState_def)
  with a s1 show ?thesis by simp
qed

theorem MergeState_own_snapshot_witness:
  "wf_world (UpdatePlayerScore 5 ''alice'' 100 (NewGameServer ''node1'' ''localhost:8081'' []))
   \<and> range_order [''alice'']
       (store (UpdatePlayerScore 5 ''alice'' 100 (NewGameServer ''node1'' ''localhost:8081'' [])))
   \<and> range_order [''alice'']
       (maps (snd (GetPlayerState [''alice'']
                (UpdatePlayerScore 5 ''alice'' 100 (NewGameServer ''node1'' ''localhost:8081'' []))))
             (fst (GetPlayerState [''alice'']
                (UpdatePlayerScore 5 ''alice'' 100 (NewGameServer ''node1'' ''localhost:8081'' [])))))
   \<and> store (MergeState [''alice'']
       (maps (snd (GetPlayerState [''alice'']
                (UpdatePlayerScore 5 ''alice'' 100 (NewGameServer ''node1'' ''localhost:8081'' []))))
             (fst (GetPlayerState [''alice'']
                (UpdatePlayerScore 5 ''alice'' 100 (NewGameServer ''node1'' ''localhost:8081'' [])))))
       (snd (GetPlayerState [''alice'']
                (UpdatePlayerScore 5 ''alice'' 100 (NewGameServer ''node1'' ''localhost:8081'' [])))))
     = [''alice'' \<mapsto> \<lparr>Score = 100, Timestamp = 5\<rparr>]"
proof -
  let ?w = "UpdatePlayerScore 5 ''alice'' 100 (NewGameServer ''node1'' ''localhost:8081'' [])"
  have h1: "wf_world ?w"
    by (simp add: wf_world_def UpdatePlayerScore_def NewGameServer_def)
  have h2: "range_order [''alice''] (store ?w)"
    by (simp add: range_order_def store_def UpdatePlayerScore_def NewGameServer_def)
  have h3: "GetPlayerState [''alice''] ?w =
      (fst (GetPlayerState [''alice''] ?w), snd (GetPlayerState [''alice''] ?w))"
    by simp
  have h4: "range_order [''alice'']
      (maps (snd (GetPlayerState [''alice''] ?w)) (fst (GetPlayerState [''alice''] ?w)))"
    by (simp add: range_order_def GetPlayerState_def make_map_def UpdatePlayerScore_def
          NewGameServer_def)
  have st: "store ?w = [''alice'' \<mapsto> \<lparr>Score = 100, Timestamp = 5\<rparr>]"
    by (simp add: store_def UpdatePlayerScore_def NewGameServer_def)
  from MergeState_own_snapshot [OF h1 h2 h3 h4]
  have "store (MergeState [''alice'']
          (maps (snd (GetPlayerState [''alice''] ?w)) (fst (GetPlayerState [''alice''] ?w)))
          (snd (GetPlayerState [''alice''] ?w))) = store ?w"
    by blast
  then have "store (MergeState [''alice'']
          (maps (snd (GetPlayerState [''alice''] ?w)) (fst (GetPlayerState [''alice''] ?w)))
          (snd (GetPlayerState [''alice''] ?w))) = [''alice'' \<mapsto> \<lparr>Score = 100, Timestamp = 5\<rparr>]"
    by (simp only: st)
  with h1 h2 h4 show ?thesis
    by blast
qed

section \<open>Steps of a node\<close>

lemma snd_GetPlayerState:
  "snd (GetPlayerState ks w) =
     w\<lparr>maps := GetPlayerState_loop ks (PlayerMap (gs w)) (fresh w) ((maps w)(fresh w := Map.empty)),
       fresh := Suc (fresh w)\<rparr>"
  by (simp add: GetPlayerState_def make_map_def)

lemma gs_gossipLoop_tick: "gs (gossipLoop_tick r d w) = gs w"
  by (simp add: gossipLoop_tick_def gossipWithPeer_def Let_def)

lemma maps_gossipLoop_tick: "maps (gossipLoop_tick r d w) = maps w"
  by (simp add: gossipLoop_tick_def gossipWithPeer_def Let_def)

lemma fresh_gossipLoop_tick: "fresh (gossipLoop_tick r d w) = fresh w"
  by (simp add: gossipLoop_tick_def gossipWithPeer_def Let_def)

lemma gs_do_step: "gs (do_step s w) = gs w"
  by (cases s)
     (simp_all add: gs_gossipLoop_tick UpdatePlayerScore_def MergeState_def snd_GetPlayerState)

lemma gs_run: "gs (run steps w) = gs w"
  unfolding run_def by (induction steps arbitrary: w) (simp_all add: gs_do_step)

lemma fresh_do_step: "fresh w \<le> fresh (do_step s w)"
  by (cases s)
     (simp_all add: fresh_gossipLoop_tick UpdatePlayerScore_def MergeState_def snd_GetPlayerState)

lemma maps_do_step:
  "x < fresh w \<Longrightarrow> x \<noteq> PlayerMap (gs w) \<Longrightarrow> maps (do_step s w) x = maps w x"
  by (cases s)
     (simp_all add: maps_gossipLoop_tick UpdatePlayerScore_def MergeState_def snd_GetPlayerState
        GetPlayerState_loop_other)

lemma maps_run:
  "x < fresh w \<Longrightarrow> x \<noteq> PlayerMap (gs w) \<Longrightarrow> maps (run steps w) x = maps w x"
  unfolding run_def
proof (induction steps arbitrary: w)
  case Nil
  show ?case by simp
next
  case (Cons s steps)
  have "x < fresh (do_step s w)"
    using Cons.prems(1) fresh_do_step [of w s] by simp
  moreover have "x \<noteq> PlayerMap (gs (do_step s w))"
    using Cons.prems(2) by (simp add: gs_do_step)
  ultimately have "maps (fold do_step steps (do_step s w)) x = maps (do_step s w) x"
    by (rule Cons.IH)
  with Cons.prems show ?case by (simp add: maps_do_step)
qed

text \<open>
  C6: \<open>GetPlayerState\<close> returns a new map object that holds exactly the entries of
  the store at the call; the call leaves the store, the server object, the network trace
  and every map object that existed before unchanged; the returned object is not the
  server's player table, and no later sequence of ticks, local writes, merges and
  snapshots changes its contents.
\<close>

theorem GetPlayerState_independent_copy:
  assumes "wf_world w" and "range_order ks (store w)" and "GetPlayerState ks w = (result, w1)"
  shows "maps w1 result = store w
         \<and> store w1 = store w \<and> gs w1 = gs w \<and> sent w1 = sent w
         \<and> (\<forall>x. x < fresh w \<longrightarrow> maps w1 x = maps w x)
         \<and> result \<noteq> PlayerMap (gs w1)
         \<and> (\<forall>steps. maps (run steps w1) result = maps w1 result)"
proof -
  note R = GetPlayerState_result [OF assms]
  from assms(1) have ne: "PlayerMap (gs w) \<noteq> fresh w" and lt: "PlayerMap (gs w) < fresh w"
    by (simp_all add: wf_world_def)
  have s1: "store w1 = store w"
    using ne by (simp add: store_def R(3,4))
  have old: "\<forall>x. x < fresh w \<longrightarrow> maps w1 x = maps w x"
    by (simp add: R(3))
  have diff: "result \<noteq> PlayerMap (gs w1)"
    using ne by (simp add: R(1,4))
  have "result < fresh w1"
    by (simp add: R(1,6))
  with diff have later: "\<forall>steps. maps (run steps w1) result = maps w1 result"
    by (simp add: maps_run)
  from R(2) s1 R(4,5) old diff later show ?thesis by simp
qed

theorem GetPlayerState_independent_copy_witness:
  "wf_world (UpdatePlayerScore 5 ''alice'' 100 (NewGameServer ''node1'' ''localhost:8081'' []))
   \<and> range_order [''alice'']
       (store (UpdatePlayerScore 5 ''alice'' 100 (NewGameServer ''node1'' ''localhost:8081'' [])))
   \<and> maps (run [Set 9 ''alice'' 300, Merge [''bob''] [''bob'' \<mapsto> \<lparr>Score = 1, Timestamp = 2\<rparr>]]
             (snd (GetPlayerState [''alice'']
                (UpdatePlayerScore 5 ''alice'' 100 (NewGameServer ''node1'' ''localhost:8081'' [])))))
        (fst (GetPlayerState [''alice'']
                (UpdatePlayerScore 5 ''alice'' 100 (NewGameServer ''node1'' ''localhost:8081'' []))))
      = [''alice'' \<mapsto> \<lparr>Score = 100, Timestamp = 5\<rparr>]"
proof -
  let ?w = "UpdatePlayerScore 5 ''alice'' 100 (NewGameServer ''node1'' ''localhost:8081'' [])"
  have h1: "wf_world ?w"
    by (simp add: wf_world_def UpdatePlayerScore_def NewGameServer_def)
  have h2: "range_order [''alice''] (store ?w)"
    by (simp add: range_order_def store_def UpdatePlayerScore_def NewGameServer_def)
  have h3: "GetPlayerState [''alice''] ?w =
      (fst (GetPlayerState [''alice''] ?w), snd (GetPlayerState [''alice''] ?w))"
    by simp
  have st: "store ?w = [''alice'' \<mapsto> \<lparr>Score = 100, Timestamp = 5\<rparr>]"
    by (simp add: store_def UpdatePlayerScore_def NewGameServer_def)
  from GetPlayerState_independent_copy [OF h1 h2 h3]
  have "maps (run [Set 9 ''alice'' 300, Merge [''bob''] [''bob'' \<mapsto> \<lparr>Score = 1, Timestamp = 2\<rparr>]]
             (snd (GetPlayerState [''alice''] ?w))) (fst (GetPlayerState [''alice''] ?w))
        = store ?w"
    by simp
  with h1 h2 st show ?thesis by simp
qed

lemma Intn_in_range: "xs \<noteq> [] \<Longrightarrow> Intn r (length xs) < length xs"
  by (simp add: Intn_def)

text \<open>
  C7: a tick of the gossip loop at which the peer list is empty returns the state as it
  was: nothing is posted, the store is unchanged, and the loop goes on with the next step.
\<close>

theorem gossipLoop_tick_no_peers:
  assumes "Peers (gs w) = []"
  shows "gossipLoop_tick r delivered w = w
         \<and> sent (gossipLoop_tick r delivered w) = sent w
         \<and> store (gossipLoop_tick r delivered w) = store w
         \<and> run (Tick r delivered # steps) w = run steps w"
  using assms by (simp add: gossipLoop_tick_def run_def)

theorem gossipLoop_tick_no_peers_witness:
  "Peers (gs (NewGameServer ''node1'' ''localhost:8081'' [])) = []
   \<and> sent (gossipLoop_tick 3 True (NewGameServer ''node1'' ''localhost:8081'' [])) = []"
proof -
  have h: "Peers (gs (NewGameServer ''node1'' ''localhost:8081'' [])) = []"
    by (simp add: NewGameServer_def)
  from h gossipLoop_tick_no_peers [OF h, of 3 True "[]"] show ?thesis
    by (simp add: NewGameServer_def)
qed

text \<open>
  C8: no sequence of ticks, local writes, merges and snapshots changes the peer list, and
  neither does a delivery to a peer, failed or not. A failed delivery leaves the map
  objects as they were and adds only the attempted post to the network trace; the gossip
  loop goes on with the next step.
\<close>

theorem Peers_fixed:
  "Peers (gs (run steps w)) = Peers (gs w)
   \<and> Peers (gs (gossipWithPeer peerAddr delivered w)) = Peers (gs w)
   \<and> maps (gossipWithPeer peerAddr False w) = maps w
   \<and> sent (gossipWithPeer peerAddr False w) =
       sent w @ [HttpPost (''http://'' @ peerAddr @ ''/gossip'') (store w)]
   \<and> run (Tick r False # steps) w = run steps (gossipLoop_tick r False w)"
proof -
  have "run (Tick r False # steps) w = run steps (gossipLoop_tick r False w)"
    by (simp add: run_def)
  then show ?thesis
    by (simp add: gs_run gossipWithPeer_def Let_def store_def)
qed

theorem Peers_fixed_witness:
  "Peers (gs (run [Tick 4 False, Set 5 ''alice'' 100, Tick 1 True, Snapshot [''alice'']]
        (NewGameServer ''node1'' ''localhost:8081'' [''localhost:8082'', ''localhost:8083''])))
   = [''localhost:8082'', ''localhost:8083'']"
  using Peers_fixed [of "[Tick 4 False, Set 5 ''alice'' 100, Tick 1 True, Snapshot [''alice'']]"
      "NewGameServer ''node1'' ''localhost:8081'' [''localhost:8082'', ''localhost:8083'']"]
  by (simp add: NewGameServer_def)

section \<open>The order of merges\<close>

lemma lww_commute:
  assumes "\<And>i j. a = Some i \<Longrightarrow> b = Some j \<Longrightarrow> Timestamp i = Timestamp j \<Longrightarrow> Score i = Score j"
  shows "lww (lww l a) b = lww (lww l b) a"
proof (cases a)
  case None
  then show ?thesis by (simp add: lww_def)
next
  case a: (Some i)
  show ?thesis
  proof (cases b)
    case None
    then show ?thesis by (simp add: lww_def)
  next
    case b: (Some j)
    have tie: "Timestamp i = Timestamp j \<Longrightarrow> i = j"
      using assms [OF a b] by simp
    show ?thesis
    proof (cases l)
      case None
      with a b tie show ?thesis
        by (auto simp: lww_def word_sless_alt not_less dest: signed_word_eqI)
    next
      case (Some x)
      with a b tie show ?thesis
        by (auto simp: lww_def word_sless_alt not_less dest: signed_word_eqI)
    qed
  qed
qed


lemma MergeState_lww:
  "range_order ks inc \<Longrightarrow> MergeState ks inc w = merge_lww inc w"
  by (simp add: MergeState_def merge_lww_def store_def MergeState_loop_lww)

lemma merge_all_lww:
  "\<forall>(ks, inc) \<in> set ps. range_order ks inc \<Longrightarrow>
   merge_all ps w = fold merge_lww (map snd ps) w"
  unfolding merge_all_def
proof (induction ps arbitrary: w)
  case Nil
  show ?case by simp
next
  case (Cons x ps)
  obtain ks inc where x: "x = (ks, inc)" by (cases x)
  from Cons.prems x have r: "range_order ks inc" and rest: "\<forall>(ks, inc) \<in> set ps. range_order ks inc"
    by simp_all
  show ?case
    using Cons.IH [OF rest] by (simp add: x MergeState_lww [OF r])
qed

lemma merge_lww_commute:
  assumes "range_order ks a" and "agree_on_ties ks a b"
  shows "merge_lww a \<circ> merge_lww b = merge_lww b \<circ> merge_lww a"
proof
  fix w :: world
  have "\<And>l p. lww (lww l (b p)) (a p) = lww (lww l (a p)) (b p)"
  proof (rule lww_commute)
    fix l p i j
    assume j: "b p = Some j" and i: "a p = Some i" and t: "Timestamp j = Timestamp i"
    from assms(1) i have "p \<in> set ks"
      by (auto simp: range_order_def)
    with assms(2) i j t show "Score j = Score i"
      by (auto simp: agree_on_ties_def)
  qed
  then show "(merge_lww a \<circ> merge_lww b) w = (merge_lww b \<circ> merge_lww a) w"
    by (simp add: merge_lww_def store_def)
qed

text \<open>
  C5, as amended: for every state and every collection of payloads in which no two
  payloads carry, for one id, the same timestamp with different scores, merging the
  payloads in any order, each in any range order of its keys, gives the same final state.
\<close>

theorem merge_all_any_order:
  assumes "mset (map snd ps) = mset (map snd qs)"
    and "\<forall>(ks, inc) \<in> set ps. range_order ks inc"
    and "\<forall>(ks, inc) \<in> set qs. range_order ks inc"
    and "\<forall>(ks, a) \<in> set ps. \<forall>(ks', b) \<in> set ps. agree_on_ties ks a b"
  shows "merge_all ps w = merge_all qs w"
proof -
  have "fold merge_lww (map snd ps) = fold merge_lww (map snd qs)"
  proof (rule fold_multiset_equiv)
    fix a b
    assume "a \<in> set (map snd ps)" and "b \<in> set (map snd ps)"
    then obtain ks ks' where a: "(ks, a) \<in> set ps" and b: "(ks', b) \<in> set ps"
      by auto
    from assms(2) a have "range_order ks a" by auto
    moreover from assms(4) a b have "agree_on_ties ks a b" by fastforce
    ultimately show "merge_lww a \<circ> merge_lww b = merge_lww b \<circ> merge_lww a"
      by (rule merge_lww_commute)
  next
    show "mset (map snd ps) = mset (map snd qs)" by (rule assms(1))
  qed
  then show ?thesis
    by (simp only: merge_all_lww [OF assms(2)] merge_all_lww [OF assms(3)])
qed

theorem merge_all_any_order_witness:
  "mset (map snd [([''alice''], [''alice'' \<mapsto> \<lparr>Score = 100, Timestamp = 5\<rparr>]),
                  ([''bob'', ''alice''], [''alice'' \<mapsto> \<lparr>Score = 200, Timestamp = 7\<rparr>,
                                          ''bob'' \<mapsto> \<lparr>Score = 1, Timestamp = 2\<rparr>])])
   = mset (map snd [([''alice'', ''bob''], [''alice'' \<mapsto> \<lparr>Score = 200, Timestamp = 7\<rparr>,
                                          ''bob'' \<mapsto> \<lparr>Score = 1, Timestamp = 2\<rparr>]),
                    ([''alice''], [''alice'' \<mapsto> \<lparr>Score = 100, Timestamp = 5\<rparr>])])
   \<and> store (merge_all [([''alice''], [''alice'' \<mapsto> \<lparr>Score = 100, Timestamp = 5\<rparr>]),
                  ([''bob'', ''alice''], [''alice'' \<mapsto> \<lparr>Score = 200, Timestamp = 7\<rparr>,
                                          ''bob'' \<mapsto> \<lparr>Score = 1, Timestamp = 2\<rparr>])]
        (NewGameServer ''node1'' ''localhost:8081'' [])) ''alice''
     = Some \<lparr>Score = 200, Timestamp = 7\<rparr>
   \<and> store (merge_all [([''alice'', ''bob''], [''alice'' \<mapsto> \<lparr>Score = 200, Timestamp = 7\<rparr>,
                                          ''bob'' \<mapsto> \<lparr>Score = 1, Timestamp = 2\<rparr>]),
                    ([''alice''], [''alice'' \<mapsto> \<lparr>Score = 100, Timestamp = 5\<rparr>])]
        (NewGameServer ''node1'' ''localhost:8081'' [])) ''alice''
     = Some \<lparr>Score = 200, Timestamp = 7\<rparr>"
proof -
  let ?A = "[''alice'' \<mapsto> \<lparr>Score = 100, Timestamp = 5\<rparr>]"
  let ?B = "[''alice'' \<mapsto> \<lparr>Score = 200, Timestamp = 7\<rparr>, ''bob'' \<mapsto> \<lparr>Score = 1, Timestamp = 2\<rparr>]"
  let ?ps = "[([''alice''], ?A), ([''bob'', ''alice''], ?B)]"
  let ?qs = "[([''alice'', ''bob''], ?B), ([''alice''], ?A)]"
  let ?w = "NewGameServer ''node1'' ''localhost:8081'' []"
  have h1: "mset (map snd ?ps) = mset (map snd ?qs)"
    by simp
  have h2: "\<forall>(ks, inc) \<in> set ?ps. range_order ks inc"
    by (auto simp: range_order_def)
  have h3: "\<forall>(ks, inc) \<in> set ?qs. range_order ks inc"
    by (auto simp: range_order_def)
  have h4: "\<forall>(ks, a) \<in> set ?ps. \<forall>(ks', b) \<in> set ?ps. agree_on_ties ks a b"
    by (simp add: agree_on_ties_def)
  have e: "store (merge_all ?ps ?w) ''alice'' = Some \<lparr>Score = 200, Timestamp = 7\<rparr>"
    by (simp add: merge_all_def MergeState_def MergeState_body_def lookup2_def store_def
          NewGameServer_def)
  from merge_all_any_order [OF h1 h2 h3 h4, of ?w] e
  have "store (merge_all ?qs ?w) ''alice'' = Some \<lparr>Score = 200, Timestamp = 7\<rparr>"
    by simp
  with h1 e show ?thesis by blast
qed

text \<open>
  C5 as stated fails when two payloads tie: merged into an empty store, the payloads
  \<open>alice: (100, 5)\<close> and \<open>alice: (200, 5)\<close> leave the score of whichever is merged
  first.
\<close>

theorem merge_order_counterexample:
  "merge_all [([''alice''], [''alice'' \<mapsto> \<lparr>Score = 100, Timestamp = 5\<rparr>]),
              ([''alice''], [''alice'' \<mapsto> \<lparr>Score = 200, Timestamp = 5\<rparr>])]
     (NewGameServer ''node1'' ''localhost:8081'' [])
   \<noteq> merge_all [([''alice''], [''alice'' \<mapsto> \<lparr>Score = 200, Timestamp = 5\<rparr>]),
                ([''alice''], [''alice'' \<mapsto> \<lparr>Score = 100, Timestamp = 5\<rparr>])]
     (NewGameServer ''node1'' ''localhost:8081'' [])"
proof
  let ?A = "[''alice'' \<mapsto> \<lparr>Score = 100, Timestamp = 5\<rparr>]"
  let ?B = "[''alice'' \<mapsto> \<lparr>Score = 200, Timestamp = 5\<rparr>]"
  let ?w = "NewGameServer ''node1'' ''localhost:8081'' []"
  assume "merge_all [([''alice''], ?A), ([''alice''], ?B)] ?w
        = merge_all [([''alice''], ?B), ([''alice''], ?A)] ?w"
  then have "store (merge_all [([''alice''], ?A), ([''alice''], ?B)] ?w) ''alice''
        = store (merge_all [([''alice''], ?B), ([''alice''], ?A)] ?w) ''alice''"
    by simp
  then show False
    by (simp add: merge_all_def MergeState_def MergeState_body_def lookup2_def store_def
          NewGameServer_def)
qed

section \<open>The greatest timestamp observed\<close>

lemma wf_world_NewGameServer: "wf_world (NewGameServer id' addr peers)"
  by (simp add: wf_world_def NewGameServer_def)

lemma wf_world_do_step: "wf_world w \<Longrightarrow> wf_world (do_step s w)"
  using fresh_do_step [of w s] by (simp add: wf_world_def gs_do_step)

lemma wf_world_run: "wf_world w \<Longrightarrow> wf_world (run steps w)"
  unfolding run_def by (induction steps arbitrary: w) (simp_all add: wf_world_do_step)

lemma store_Snapshot: "wf_world w \<Longrightarrow> store (snd (GetPlayerState ks w)) = store w"
  by (simp add: store_def snd_GetPlayerState wf_world_def GetPlayerState_loop_other)

lemma store_Tick: "store (gossipLoop_tick r d w) = store w"
  by (simp add: store_def gs_gossipLoop_tick maps_gossipLoop_tick)

lemma observed_append: "observed (xs @ ys) p = observed xs p @ observed ys p"
  by (simp add: observed_def)

lemma observed_single: "observed [s] p = observed1 s p"
  by (simp add: observed_def)

lemma holds_latest_lww:
  assumes "holds_latest l obs"
  shows "holds_latest (lww l inc) (obs @ (case inc of None \<Rightarrow> [] | Some i \<Rightarrow> [i]))"
proof (cases inc)
  case None
  with assms show ?thesis by (simp add: lww_def)
next
  case (Some i)
  show ?thesis
  proof (cases l)
    case None
    with assms Some show ?thesis by (simp add: lww_def holds_latest_def)
  next
    case l: (Some st)
    with assms have mem: "st \<in> set obs" and top: "\<forall>x \<in> set obs. \<not> Timestamp st <s Timestamp x"
      by (simp_all add: holds_latest_def)
    show ?thesis
    proof (cases "Timestamp st <s Timestamp i")
      case True
      with top have "\<forall>x \<in> set obs. \<not> Timestamp i <s Timestamp x"
        by (auto simp: word_sless_alt)
      with True Some l show ?thesis by (simp add: lww_def holds_latest_def)
    next
      case False
      with mem top Some l show ?thesis by (simp add: lww_def holds_latest_def)
    qed
  qed
qed

lemma holds_latest_step:
  assumes "wf_world w" and "holds_latest (store w p) (observed before p)"
    and "merges_ranged [s]" and "stamps_current before [s]"
  shows "holds_latest (store (do_step s w) p) (observed (before @ [s]) p)"
proof (cases s)
  case (Tick r d)
  with assms(2) show ?thesis
    by (simp add: store_Tick observed_append observed_single)
next
  case (Set now q score)
  show ?thesis
  proof (cases "q = p")
    case True
    from assms(4) Set True have "\<forall>x \<in> set (observed before p). \<not> now <s Timestamp x"
      by simp
    with Set True show ?thesis
      by (simp add: store_def UpdatePlayerScore_def observed_append observed_single
            holds_latest_def)
  next
    case False
    with assms(2) Set show ?thesis
      by (simp add: store_def UpdatePlayerScore_def observed_append observed_single)
  qed
next
  case (Merge ks inc)
  with assms(3) have "range_order ks inc" by simp
  then have "store (do_step s w) p = lww (store w p) (inc p)"
    by (simp add: Merge store_MergeState)
  with holds_latest_lww [OF assms(2), of "inc p"] Merge show ?thesis
    by (simp add: observed_append observed_single)
next
  case (Snapshot ks)
  with assms(1,2) show ?thesis
    by (simp add: store_Snapshot observed_append observed_single)
qed

lemma holds_latest_Max:
  assumes "holds_latest (Some st) obs"
  shows "sint (Timestamp st) = Max (set (map (\<lambda>x. sint (Timestamp x)) obs))"
proof (rule Max_eqI [symmetric])
  show "finite (set (map (\<lambda>x. sint (Timestamp x)) obs))" by simp
  show "sint (Timestamp st) \<in> set (map (\<lambda>x. sint (Timestamp x)) obs)"
    using assms by (auto simp: holds_latest_def)
  fix y
  assume "y \<in> set (map (\<lambda>x. sint (Timestamp x)) obs)"
  with assms show "y \<le> sint (Timestamp st)"
    by (auto simp: holds_latest_def word_sless_alt not_less)
qed

lemma merges_ranged_Cons: "merges_ranged (s # steps) = (merges_ranged [s] \<and> merges_ranged steps)"
  by (cases s) simp_all

lemma stamps_current_Cons:
  "stamps_current before (s # steps) =
     (stamps_current before [s] \<and> stamps_current (before @ [s]) steps)"
  by (cases s) simp_all

lemma holds_latest_run:
  assumes "wf_world w" and "holds_latest (store w p) (observed before p)"
    and "merges_ranged steps" and "stamps_current before steps"
  shows "holds_latest (store (run steps w) p) (observed (before @ steps) p)"
  using assms
proof (induction steps arbitrary: w before)
  case Nil
  then show ?case by (simp add: run_def)
next
  case (Cons s steps)
  from Cons.prems(3) have m1: "merges_ranged [s]" and m2: "merges_ranged steps"
    using merges_ranged_Cons [of s steps] by simp_all
  from Cons.prems(4) have c1: "stamps_current before [s]"
    and c2: "stamps_current (before @ [s]) steps"
    using stamps_current_Cons [of before s steps] by simp_all
  have "holds_latest (store (do_step s w) p) (observed (before @ [s]) p)"
    using Cons.prems(1,2) m1 c1 by (rule holds_latest_step)
  with wf_world_do_step [OF Cons.prems(1)] m2 c2
  have "holds_latest (store (run steps (do_step s w)) p) (observed ((before @ [s]) @ steps) p)"
    by (intro Cons.IH)
  then show ?case by (simp add: run_def)
qed

text \<open>
  C2, as amended: for every sequence of steps of a new server in which every local write
  stamps a clock reading that no entry observed earlier for the same id exceeds, and every
  merge iterates its payload in a range order, the stored entry of every id after the
  steps (so after any merge) is one of the entries observed for that id, in a local write
  or a merged payload, and no observed entry of the id has a greater timestamp; an id has
  no entry only when nothing was observed for it.
\<close>

theorem store_holds_latest:
  assumes "merges_ranged steps" and "stamps_current [] steps"
  shows "holds_latest (store (run steps (NewGameServer id' addr peers)) playerId)
           (observed steps playerId)"
proof -
  have "wf_world (NewGameServer id' addr peers)"
    by (rule wf_world_NewGameServer)
  moreover have "holds_latest (store (NewGameServer id' addr peers) playerId) (observed [] playerId)"
    by (simp add: holds_latest_def store_def NewGameServer_def observed_def)
  ultimately have "holds_latest (store (run steps (NewGameServer id' addr peers)) playerId)
           (observed ([] @ steps) playerId)"
    using assms by (rule holds_latest_run)
  then show ?thesis by simp
qed

theorem store_holds_latest_witness:
  "merges_ranged [Set 5 ''alice'' 100,
       Merge [''alice''] [''alice'' \<mapsto> \<lparr>Score = 200, Timestamp = 10\<rparr>],
       Set 12 ''alice'' 300,
       Merge [''alice''] [''alice'' \<mapsto> \<lparr>Score = 90, Timestamp = 7\<rparr>]]
   \<and> stamps_current [] [Set 5 ''alice'' 100,
       Merge [''alice''] [''alice'' \<mapsto> \<lparr>Score = 200, Timestamp = 10\<rparr>],
       Set 12 ''alice'' 300,
       Merge [''alice''] [''alice'' \<mapsto> \<lparr>Score = 90, Timestamp = 7\<rparr>]]
   \<and> holds_latest (Some \<lparr>Score = 300, Timestamp = 12\<rparr>)
       [\<lparr>Score = 100, Timestamp = 5\<rparr>, \<lparr>Score = 200, Timestamp = 10\<rparr>,
        \<lparr>Score = 300, Timestamp = 12\<rparr>, \<lparr>Score = 90, Timestamp = 7\<rparr>]"
proof -
  let ?steps = "[Set 5 ''alice'' 100,
       Merge [''alice''] [''alice'' \<mapsto> \<lparr>Score = 200, Timestamp = 10\<rparr>],
       Set 12 ''alice'' 300,
       Merge [''alice''] [''alice'' \<mapsto> \<lparr>Score = 90, Timestamp = 7\<rparr>]]"
  have h1: "merges_ranged ?steps"
    by (simp add: range_order_def)
  have h2: "stamps_current [] ?steps"
    by (simp add: observed_def)
  have s: "store (run ?steps (NewGameServer ''node1'' ''localhost:8081'' [])) ''alice''
      = Some \<lparr>Score = 300, Timestamp = 12\<rparr>"
    by (simp add: run_def store_def MergeState_def MergeState_body_def lookup2_def
          UpdatePlayerScore_def NewGameServer_def)
  have ob: "observed ?steps ''alice'' =
       [\<lparr>Score = 100, Timestamp = 5\<rparr>, \<lparr>Score = 200, Timestamp = 10\<rparr>,
        \<lparr>Score = 300, Timestamp = 12\<rparr>, \<lparr>Score = 90, Timestamp = 7\<rparr>]"
    by (simp add: observed_def)
  from store_holds_latest [OF h1 h2, of "''node1''" "''localhost:8081''" "[]" "''alice''"]
  have "holds_latest (Some \<lparr>Score = 300, Timestamp = 12\<rparr>)
       [\<lparr>Score = 100, Timestamp = 5\<rparr>, \<lparr>Score = 200, Timestamp = 10\<rparr>,
        \<lparr>Score = 300, Timestamp = 12\<rparr>, \<lparr>Score = 90, Timestamp = 7\<rparr>]"
    by (simp only: s ob)
  with h1 h2 show ?thesis by blast
qed

text \<open>
  C2 as stated fails when a local write stamps an older time than the stored entry has:
  after merging \<open>alice: (200, 10)\<close>, writing 100 for \<open>alice\<close> at clock reading 5 and
  merging a payload for \<open>bob\<close>, the store holds \<open>alice: (100, 5)\<close> although the
  timestamp 10 was observed.
\<close>

theorem stale_Set_counterexample:
  "\<not> holds_latest
       (store (run [Merge [''alice''] [''alice'' \<mapsto> \<lparr>Score = 200, Timestamp = 10\<rparr>],
                   Set 5 ''alice'' 100,
                   Merge [''bob''] [''bob'' \<mapsto> \<lparr>Score = 1, Timestamp = 2\<rparr>]]
                (NewGameServer ''node1'' ''localhost:8081'' [])) ''alice'')
       (observed [Merge [''alice''] [''alice'' \<mapsto> \<lparr>Score = 200, Timestamp = 10\<rparr>],
                  Set 5 ''alice'' 100,
                  Merge [''bob''] [''bob'' \<mapsto> \<lparr>Score = 1, Timestamp = 2\<rparr>]] ''alice'')"
  by (simp add: run_def store_def MergeState_def MergeState_body_def lookup2_def
        UpdatePlayerScore_def NewGameServer_def observed_def holds_latest_def)

section \<open>The update handler\<close>

lemma HandleUpdate_rejects:
  assumes "Values_Get (Query r) ''playerId'' = '''' \<or> Values_Get (Query r) ''score'' = ''''
           \<or> (\<exists>e. Sscanf_d (Values_Get (Query r) ''score'') = Inl e)"
  shows "status (fst (HandleUpdate now r w)) = StatusBadRequest \<and> snd (HandleUpdate now r w) = w"
  using assms by (auto simp: HandleUpdate_def Let_def http_Error_def split: sum.splits)

lemma HandleUpdate_accepts:
  assumes "Values_Get (Query r) ''playerId'' \<noteq> ''''" and "Values_Get (Query r) ''score'' \<noteq> ''''"
    and "Sscanf_d (Values_Get (Query r) ''score'') = Inr score"
  shows "HandleUpdate now r w =
           (\<lparr>status = StatusOK, body = ''''\<rparr>,
            UpdatePlayerScore now (Values_Get (Query r) ''playerId'') score w)"
  using assms by (simp add: HandleUpdate_def Let_def)

lemma Sscanf_d_12abc: "Sscanf_d ''12abc'' = Inr 12"
  by (simp add: Sscanf_d_def SkipSpace.simps space_width_def is_digit_def decimal_def digit_val_def)

text \<open>
  C9: the update handler calls the core only for a non-empty id and a score that is an
  integer, and answers every other request with a client error. The code does not: for
  the request \<^verbatim>\<open>/update?playerId=alice&score=12abc\<close> the scanner reads the digits
  \<open>12\<close> and ignores the rest, the handler answers 200 and the store holds the score 12
  for \<open>alice\<close>.
\<close>

theorem HandleUpdate_trailing_text:
  "HandleUpdate 5 \<lparr>Query = [''playerId'' \<mapsto> [''alice''], ''score'' \<mapsto> [''12abc'']]\<rparr>
      (NewGameServer ''node1'' ''localhost:8081'' [])
   = (\<lparr>status = StatusOK, body = ''''\<rparr>,
      UpdatePlayerScore 5 ''alice'' 12 (NewGameServer ''node1'' ''localhost:8081'' []))
   \<and> store (snd (HandleUpdate 5
        \<lparr>Query = [''playerId'' \<mapsto> [''alice''], ''score'' \<mapsto> [''12abc'']]\<rparr>
        (NewGameServer ''node1'' ''localhost:8081'' []))) ''alice''
     = Some \<lparr>Score = 12, Timestamp = 5\<rparr>"
proof -
  have "HandleUpdate 5 \<lparr>Query = [''playerId'' \<mapsto> [''alice''], ''score'' \<mapsto> [''12abc'']]\<rparr>
      (NewGameServer ''node1'' ''localhost:8081'' [])
   = (\<lparr>status = StatusOK, body = ''''\<rparr>,
      UpdatePlayerScore 5 ''alice'' 12 (NewGameServer ''node1'' ''localhost:8081'' []))"
    by (simp add: HandleUpdate_def Values_Get_def Sscanf_d_12abc)
  then show ?thesis
    by (simp add: store_def UpdatePlayerScore_def NewGameServer_def)
qed

end
